theory Spec2Isabelle
  imports Complex_Main "HOL-Library.Monad_Syntax" "HOL-Library.Multiset"
begin

section \<open>Numbers and vectors\<close>

text \<open>
  The program computes in C++ \<open>float\<close>. Unless a definition says otherwise, a
  \<open>float\<close> is read as a finite real number and its arithmetic as exact: the
  development is about the control flow, the algebra and the geometry of the
  raymarcher. Rounding is written out in the one place where it decides whether the
  program returns: the recursion of \<open>mod\<close>, whose rounding is a parameter, and which
  the repeated-sphere distance calls in single precision.
\<close>

text \<open>
  Modelled from the spec: the header \<open>geometry.h\<close>, which declares \<open>Vec3f\<close>, is
  not among the sources. A vector is three finite floats \<open>(x, y, z)\<close>.
\<close>

datatype Vec3f = Vec3f (vx: real) (vy: real) (vz: real)

text \<open>
  Modelled from the spec: the sum and the difference of two vectors, of the absent
  \<open>geometry.h\<close>, are componentwise.
\<close>

instantiation Vec3f :: "{plus, minus}"
begin

definition plus_Vec3f :: "Vec3f \<Rightarrow> Vec3f \<Rightarrow> Vec3f" where
  "plus_Vec3f a b = Vec3f (vx a + vx b) (vy a + vy b) (vz a + vz b)"

definition minus_Vec3f :: "Vec3f \<Rightarrow> Vec3f \<Rightarrow> Vec3f" where
  "minus_Vec3f a b = Vec3f (vx a - vx b) (vy a - vy b) (vz a - vz b)"

instance ..

end

text \<open>
  Modelled from the spec: \<open>a*s\<close> of the absent \<open>geometry.h\<close>, the product of a
  vector and a scalar.
\<close>

definition scale :: "Vec3f \<Rightarrow> real \<Rightarrow> Vec3f" where
  "scale a s = Vec3f (vx a * s) (vy a * s) (vz a * s)"

text \<open>
  Modelled from the spec: \<open>a\<cdot>b\<close> of the absent \<open>geometry.h\<close>, the scalar (dot)
  product, which the source writes \<open>a * b\<close> on two vectors.
\<close>

definition dot :: "Vec3f \<Rightarrow> Vec3f \<Rightarrow> real" where
  "dot a b = vx a * vx b + vy a * vy b + vz a * vz b"

text \<open>
  Modelled from the spec: \<open>norm\<close> of the absent \<open>geometry.h\<close>, the Euclidean norm,
  the square root of \<open>a\<cdot>a\<close>.
\<close>

definition norm_v :: "Vec3f \<Rightarrow> real" where
  "norm_v a = sqrt (dot a a)"

text \<open>
  Modelled from the spec: \<open>normalize\<close> of the absent \<open>geometry.h\<close>, the vector
  divided by its norm, undefined at the zero vector (the caller must avoid it):
  \<open>None\<close> there.
\<close>

definition normalize :: "Vec3f \<Rightarrow> Vec3f option" where
  "normalize a = (if norm_v a = 0 then None else Some (scale a (1 / norm_v a)))"

text \<open>
  Modelled from the spec: \<open>a[j]\<close> of the absent \<open>geometry.h\<close>, component \<open>j\<close> of a
  vector (the sink reads the components 0, 1 and 2).
\<close>

definition comp_v :: "Vec3f \<Rightarrow> nat \<Rightarrow> real" where
  "comp_v a j = (if j = 0 then vx a else if j = 1 then vy a else vz a)"

section \<open>Constants\<close>

definition sphere_radius :: real where
  "sphere_radius = 0.25"

definition sphere_center :: Vec3f where
  "sphere_center = Vec3f 0.5 0.5 0"

definition box_size :: Vec3f where
  "box_size = Vec3f 0.25 0.25 0.25"

definition box_center :: Vec3f where
  "box_center = Vec3f 0.5 0.5 0"

definition ray_steps :: nat where
  "ray_steps = 128"

section \<open>Componentwise helpers\<close>

text \<open>
  Inside the vector \<open>abs\<close> the source calls \<open>abs\<close> on a float; it is read as the
  absolute value of that float, as the specification describes the helper.
\<close>

definition abs_v :: "Vec3f \<Rightarrow> Vec3f" where
  "abs_v p = Vec3f (abs (vx p)) (abs (vy p)) (abs (vz p))"

definition max_v :: "Vec3f \<Rightarrow> real \<Rightarrow> Vec3f" where
  "max_v p v = Vec3f (if vx p > v then vx p else v)
                     (if vy p > v then vy p else v)
                     (if vz p > v then vz p else v)"

definition maxcomp :: "Vec3f \<Rightarrow> real" where
  "maxcomp p =
     (let m = vx p;
          m = (if vy p > m then vy p else m);
          m = (if vz p > m then vz p else m)
      in m)"

section \<open>The box distance function\<close>

text \<open>
  The return line of the source is
  \<^verbatim>\<open>return max( q, 0 ).norm() + ( maxComp < 0 ) ? maxComp : 0;\<close>
  In C++ the conditional operator binds weaker than \<open>+\<close>: the condition is the sum
  of the norm and of the comparison (a \<open>bool\<close> promoted to 1 or 0), and it holds when
  that sum is not zero.
\<close>

definition box_signed_distance :: "Vec3f \<Rightarrow> real" where
  "box_signed_distance p =
     (let q = abs_v p - box_center - box_size;
          maxComp = maxcomp q
      in if norm_v (max_v q 0) + (if maxComp < 0 then 1 else 0) \<noteq> 0
         then maxComp else 0)"

section \<open>The repeated-sphere distance function\<close>

text \<open>
  The scalar \<open>mod\<close> of the source recurses until its argument lies in \<open>[0, v)\<close>.
  Nothing bounds the recursion, so the model is a partial function and \<open>None\<close> is
  the call that never returns. The parameter \<open>rnd\<close> is the rounding of the two float
  assignments \<open>f += v\<close> and \<open>f -= v\<close>: the identity for exact arithmetic,
  \<open>binary32\<close> below for the arithmetic of an IEEE 754 single-precision float.
\<close>

partial_function (option) mod_f :: "(real \<Rightarrow> real) \<Rightarrow> real \<Rightarrow> real \<Rightarrow> real option" where
  "mod_f rnd f v =
     (if f < 0 then mod_f rnd (rnd (f + v)) v
      else if f \<ge> v then mod_f rnd (rnd (f - v)) v
      else Some f)"

definition exact :: "real \<Rightarrow> real" where
  "exact x = x"

text \<open>
  Rounding to the nearest integer, a tie going to the even neighbour, and with it the
  rounding of a real number to the nearest \<open>float\<close> (24 significant bits). Overflow
  and subnormal numbers are left out: the values rounded below are far from both.
\<close>

definition round_half_even :: "real \<Rightarrow> int" where
  "round_half_even y =
     (let n = \<lfloor>y\<rfloor>; r = y - of_int n
      in if r < 1/2 then n else if r > 1/2 then n + 1 else if even n then n else n + 1)"

definition binary32 :: "real \<Rightarrow> real" where
  "binary32 x =
     (if x = 0 then 0
      else let u = 2 powr (of_int \<lfloor>log 2 \<bar>x\<bar>\<rfloor> - 23)
           in of_int (round_half_even (x / u)) * u)"

definition mod_v :: "(real \<Rightarrow> real) \<Rightarrow> Vec3f \<Rightarrow> real \<Rightarrow> Vec3f option" where
  "mod_v rnd p val =
     do {
       x \<leftarrow> mod_f rnd (vx p) val;
       y \<leftarrow> mod_f rnd (vy p) val;
       z \<leftarrow> mod_f rnd (vz p) val;
       Some (Vec3f x y z)
     }"

text \<open>
  The distance function calls \<open>mod\<close> on floats, so its recursion is the one in
  single precision: where a coordinate makes \<open>mod\<close> recurse forever, the distance
  function does not return either. With the second argument 1 and a float as the first,
  every sum and difference \<open>mod\<close> rounds is zero or a normal number of smaller
  magnitude, inside the range \<open>binary32\<close> covers. The subtraction and the norm that
  follow are exact.
\<close>

definition sphere_signed_distance :: "Vec3f \<Rightarrow> real option" where
  "sphere_signed_distance p =
     do {
       m \<leftarrow> mod_v binary32 p 1;
       Some (norm_v (m - sphere_center) - sphere_radius)
     }"

section \<open>The tracer\<close>

text \<open>
  \<open>sphere_trace\<close> and \<open>box_trace\<close> are the same loop around two distance
  functions. \<open>trace_loop\<close> is that loop: \<open>i\<close> is the loop counter and \<open>pos\<close> the
  reference parameter the source updates. The last argument is a log of the values the
  distance function returned so far, one entry for each evaluation; the program has no
  such variable, the log only records what it computes. The result is the returned
  \<open>bool\<close>, the final \<open>pos\<close> and the log.
\<close>

function trace_loop ::
  "(Vec3f \<Rightarrow> real option) \<Rightarrow> Vec3f \<Rightarrow> nat \<Rightarrow> Vec3f \<Rightarrow> real list
    \<Rightarrow> (bool \<times> Vec3f \<times> real list) option" where
  "trace_loop sdf dir i pos ds =
     (if i < ray_steps then
        (case sdf pos of
           None \<Rightarrow> None
         | Some d \<Rightarrow>
             if d < 0 then Some (True, pos, ds @ [d])
             else trace_loop sdf dir (i + 1) (pos + scale dir (max (d * 0.1) 0.01)) (ds @ [d]))
      else Some (False, pos, ds))"
  by pat_completeness auto
termination
  by (relation "measure (\<lambda>(sdf, dir, i, pos, ds). ray_steps - i)") auto

declare trace_loop.simps [simp del]

definition sphere_trace :: "Vec3f \<Rightarrow> Vec3f \<Rightarrow> (bool \<times> Vec3f \<times> real list) option" where
  "sphere_trace orig dir = trace_loop sphere_signed_distance dir 0 orig []"

definition box_trace :: "Vec3f \<Rightarrow> Vec3f \<Rightarrow> (bool \<times> Vec3f \<times> real list) option" where
  "box_trace orig dir = trace_loop (\<lambda>p. Some (box_signed_distance p)) dir 0 orig []"

section \<open>Normals and shading\<close>

definition distance_field_normal_sphere :: "Vec3f \<Rightarrow> Vec3f option" where
  "distance_field_normal_sphere pos =
     do {
       d \<leftarrow> sphere_signed_distance pos;
       dx \<leftarrow> sphere_signed_distance (pos + Vec3f 0.1 0 0);
       dy \<leftarrow> sphere_signed_distance (pos + Vec3f 0 0.1 0);
       dz \<leftarrow> sphere_signed_distance (pos + Vec3f 0 0 0.1);
       normalize (Vec3f (dx - d) (dy - d) (dz - d))
     }"

definition distance_field_normal_box :: "Vec3f \<Rightarrow> Vec3f option" where
  "distance_field_normal_box pos =
     (let eps = 0.1;
          d = box_signed_distance pos;
          nx = box_signed_distance (pos + Vec3f eps 0 0) - d;
          ny = box_signed_distance (pos + Vec3f 0 eps 0) - d;
          nz = box_signed_distance (pos + Vec3f 0 0 eps) - d
      in normalize (Vec3f nx ny nz))"

text \<open>
  The two shading branches of \<open>main\<close>. Both compute \<open>light_dir\<close> from the hit point,
  \<open>light_intensity\<close> from it and the estimated normal, and the white colour scaled by
  the intensity.
\<close>

definition light_intensity :: "Vec3f \<Rightarrow> Vec3f \<Rightarrow> real" where
  "light_intensity light_dir normal = max 0.4 (dot light_dir normal)"

definition shade_sphere :: "Vec3f \<Rightarrow> Vec3f option" where
  "shade_sphere hit =
     do {
       light_dir \<leftarrow> normalize (Vec3f 10 10 10 - hit);
       normal \<leftarrow> distance_field_normal_sphere hit;
       Some (scale (Vec3f 1 1 1) (light_intensity light_dir normal))
     }"

definition shade_box :: "Vec3f \<Rightarrow> Vec3f option" where
  "shade_box hit =
     do {
       light_dir \<leftarrow> normalize (Vec3f 10 10 10 - hit);
       normal \<leftarrow> distance_field_normal_box hit;
       Some (scale (Vec3f 1 1 1) (light_intensity light_dir normal))
     }"

section \<open>The render loop\<close>

definition width :: nat where
  "width = 640"

definition height :: nat where
  "height = 480"

definition fov :: real where
  "fov = pi / 3"

definition calcSphere :: bool where
  "calcSphere = False"

definition calcBox :: bool where
  "calcBox = True"

definition background :: Vec3f where
  "background = Vec3f 0.2 0.7 0.8"

definition ray_dir :: "nat \<Rightarrow> nat \<Rightarrow> Vec3f option" where
  "ray_dir i j =
     (let dir_x = (real i + 0.5) - real width / 2;
          dir_y = - (real j + 0.5) + real height / 2;
          dir_z = - real height / (2 * tan (fov / 2))
      in normalize (Vec3f dir_x dir_y dir_z))"

text \<open>
  The body of the inner loop, as the colour it stores at \<open>framebuffer[i + j * width]\<close>.
  The operator \<open>&&\<close> does not call the tracer when the flag before it is false.
  \<open>v0\<close> is the default vector of the absent \<open>geometry.h\<close>, the value of the
  local \<open>hit\<close> before a tracer assigns it.
\<close>

definition pixel :: "Vec3f \<Rightarrow> nat \<Rightarrow> nat \<Rightarrow> Vec3f option" where
  "pixel v0 i j =
     do {
       (sphere_hit, hit, ds) \<leftarrow>
         (if calcSphere then do { dir \<leftarrow> ray_dir i j; sphere_trace (Vec3f 1 1 3) dir }
          else Some (False, v0, []));
       if sphere_hit then shade_sphere hit
       else
         do {
           (box_hit, hit, ds) \<leftarrow>
             (if calcBox then do { dir \<leftarrow> ray_dir i j; box_trace (Vec3f 0.5 0.5 3) dir }
              else Some (False, hit, []));
           if box_hit then shade_box hit else Some background
         }
     }"

text \<open>
  The state of the render loop is the framebuffer and a log of the indices written so
  far, in the order of the writes (the log is not a variable of the program). A write
  \<open>framebuffer[k] = c\<close> beyond the end of the vector is undefined behaviour in C++;
  the model stops with \<open>None\<close> there.
\<close>

type_synonym render_state = "Vec3f list \<times> nat list"

definition store :: "Vec3f \<Rightarrow> nat \<Rightarrow> nat \<Rightarrow> render_state \<Rightarrow> render_state option" where
  "store v0 i j st =
     (case pixel v0 i j of
        None \<Rightarrow> None
      | Some c \<Rightarrow>
          (let k = i + j * width
           in if k < length (fst st) then Some ((fst st)[k := c], snd st @ [k]) else None))"

function row_loop :: "Vec3f \<Rightarrow> nat \<Rightarrow> nat \<Rightarrow> render_state \<Rightarrow> render_state option" where
  "row_loop v0 j i st =
     (if i < width then
        (case store v0 i j st of
           None \<Rightarrow> None
         | Some st' \<Rightarrow> row_loop v0 j (i + 1) st')
      else Some st)"
  by pat_completeness auto
termination
  by (relation "measure (\<lambda>(v0, j, i, st). width - i)") auto

declare row_loop.simps [simp del]

function rows_loop :: "Vec3f \<Rightarrow> nat \<Rightarrow> render_state \<Rightarrow> render_state option" where
  "rows_loop v0 j st =
     (if j < height then
        (case row_loop v0 j 0 st of
           None \<Rightarrow> None
         | Some st' \<Rightarrow> rows_loop v0 (j + 1) st')
      else Some st)"
  by pat_completeness auto
termination
  by (relation "measure (\<lambda>(v0, j, st). height - j)") auto

declare rows_loop.simps [simp del]

text \<open>
  \<open>std::vector<Vec3f> framebuffer( width * height )\<close> holds \<open>width * height\<close>
  copies of the default vector \<open>v0\<close>, which the absent \<open>geometry.h\<close> defines.
\<close>

definition render :: "Vec3f \<Rightarrow> render_state option" where
  "render v0 = rows_loop v0 0 (replicate (width * height) v0, [])"

text \<open>
  The pragma \<open>omp parallel for\<close> hands the iterations of the outer loop to worker
  threads. Every variable of the body is local to its iteration, and the only shared
  object an iteration touches is the framebuffer element it assigns. A parallel run is
  modelled by a schedule: the order in which the bodies of the inner loop take effect,
  one pair \<open>(j, i)\<close> for each. \<open>iterations\<close> is the order of the sequential program.
\<close>

definition iterations :: "(nat \<times> nat) list" where
  "iterations = concat (map (\<lambda>j. map (\<lambda>i. (j, i)) [0..<width]) [0..<height])"

fun run_schedule :: "Vec3f \<Rightarrow> (nat \<times> nat) list \<Rightarrow> render_state \<Rightarrow> render_state option" where
  "run_schedule v0 [] st = Some st"
| "run_schedule v0 ((j, i) # sched) st =
     (case store v0 i j st of
        None \<Rightarrow> None
      | Some st' \<Rightarrow> run_schedule v0 sched st')"

definition render_scheduled :: "Vec3f \<Rightarrow> (nat \<times> nat) list \<Rightarrow> render_state option" where
  "render_scheduled v0 sched = run_schedule v0 sched (replicate (width * height) v0, [])"

text \<open>
  A colour whose three components lie in \<open>[0, 1]\<close>.
\<close>

definition in_range :: "Vec3f \<Rightarrow> bool" where
  "in_range c \<longleftrightarrow> 0 \<le> vx c \<and> vx c \<le> 1 \<and> 0 \<le> vy c \<and> vy c \<le> 1 \<and> 0 \<le> vz c \<and> vz c \<le> 1"

section \<open>The sink\<close>

text \<open>
  \<open>static_cast<int>\<close> of a float drops the fraction (it rounds toward zero), and is
  undefined when the result does not fit an \<open>int\<close>.
\<close>

definition float_to_int :: "real \<Rightarrow> int option" where
  "float_to_int x =
     (let n = (if 0 \<le> x then \<lfloor>x\<rfloor> else \<lceil>x\<rceil>)
      in if - 2147483648 \<le> n \<and> n \<le> 2147483647 then Some n else None)"

definition sink_byte :: "real \<Rightarrow> int option" where
  "sink_byte c = map_option (\<lambda>n. max 0 (min 255 n)) (float_to_int (255 * c))"

text \<open>
  The bytes after the header of \<open>out.ppm\<close>: three for each element of the
  framebuffer, in order. A byte is kept as its value between 0 and 255 (the cast to
  \<open>char\<close> keeps the low eight bits, which the stream writes).
\<close>

definition ppm_bytes :: "Vec3f list \<Rightarrow> int list option" where
  "ppm_bytes framebuffer =
     those (concat (map (\<lambda>v. map (\<lambda>j. sink_byte (comp_v v j)) [0..<3]) framebuffer))"

text \<open>
  The conversion as the specification words it: \<open>clamp(round(255\<cdot>c), 0, 255)\<close>.
\<close>

definition spec_byte :: "real \<Rightarrow> int" where
  "spec_byte c = max 0 (min 255 (round (255 * c)))"

section \<open>An invariant of the box tracer\<close>

text \<open>
  A point of a ray that leaves the camera \<open>(0.5, 0.5, 3)\<close> of the box scene in the
  direction \<open>dir\<close> is displaced from the camera, along x and along y, towards the side
  \<open>dir\<close> points to. \<open>ray_inv\<close> says so, and that the point is in front of the plane
  \<open>z = 0.25\<close> of the near face, or beside the box, or inside the box within 0.01 of
  the near face. It holds at every point the box tracer visits (lemma
  \<open>ray_inv_step\<close>), and is used in proofs only.
\<close>

definition ray_inv :: "Vec3f \<Rightarrow> Vec3f \<Rightarrow> bool" where
  "ray_inv dir pos \<longleftrightarrow>
     ((0.5 \<le> vx pos \<and> 0 \<le> vx dir) \<or> (vx pos \<le> 0.5 \<and> vx dir \<le> 0)) \<and>
     ((0.5 \<le> vy pos \<and> 0 \<le> vy dir) \<or> (vy pos \<le> 0.5 \<and> vy dir \<le> 0)) \<and>
     (0.25 \<le> vz pos \<or> 0.75 \<le> abs (vx pos) \<or> 0.75 \<le> abs (vy pos) \<or>
      (box_signed_distance pos < 0 \<and> 0.24 \<le> vz pos))"

section \<open>The bounding box of the specification\<close>

text \<open>
  The bounding box the specification describes: the points within \<open>box_size\<close> of
  \<open>box_center\<close> on every axis.
\<close>

definition in_bounding_box :: "Vec3f \<Rightarrow> bool" where
  "in_bounding_box p \<longleftrightarrow>
     \<bar>vx p - vx box_center\<bar> < vx box_size \<and>
     \<bar>vy p - vy box_center\<bar> < vy box_size \<and>
     \<bar>vz p - vz box_center\<bar> < vz box_size"

section \<open>Facts about vectors\<close>

lemma dot_self_nonneg: "0 \<le> dot a a"
  by (simp add: dot_def)

lemma norm_v_nonneg: "0 \<le> norm_v a"
  by (simp add: norm_v_def dot_self_nonneg)

lemma norm_v_eq_0_iff: "norm_v a = 0 \<longleftrightarrow> vx a = 0 \<and> vy a = 0 \<and> vz a = 0"
proof -
  have "dot a a = 0 \<longleftrightarrow> vx a = 0 \<and> vy a = 0 \<and> vz a = 0"
    unfolding dot_def
    by (metis add_nonneg_eq_0_iff add_nonneg_nonneg mult_eq_0_iff zero_le_square)
  then show ?thesis
    by (simp add: norm_v_def)
qed

lemma dot_sq_le: "(dot a b)\<^sup>2 \<le> dot a a * dot b b"
proof -
  have "dot a a * dot b b - (dot a b)\<^sup>2
      = (vx a * vy b - vy a * vx b)\<^sup>2 + (vx a * vz b - vz a * vx b)\<^sup>2
        + (vy a * vz b - vz a * vy b)\<^sup>2"
    by (simp add: dot_def power2_eq_square algebra_simps)
  moreover have "0 \<le> (vx a * vy b - vy a * vx b)\<^sup>2 + (vx a * vz b - vz a * vx b)\<^sup>2
        + (vy a * vz b - vz a * vy b)\<^sup>2"
    by simp
  ultimately show ?thesis
    by linarith
qed

lemma dot_le_norms: "dot a b \<le> norm_v a * norm_v b"
proof -
  have "dot a b \<le> \<bar>dot a b\<bar>"
    by simp
  also have "\<dots> = sqrt ((dot a b)\<^sup>2)"
    by simp
  also have "\<dots> \<le> sqrt (dot a a * dot b b)"
    using dot_sq_le by (rule real_sqrt_le_mono)
  also have "\<dots> = norm_v a * norm_v b"
    by (simp add: norm_v_def real_sqrt_mult)
  finally show ?thesis .
qed

lemma norm_v_scale: "norm_v (scale a s) = \<bar>s\<bar> * norm_v a"
proof -
  have "dot (scale a s) (scale a s) = s\<^sup>2 * dot a a"
    by (simp add: dot_def scale_def power2_eq_square algebra_simps)
  then show ?thesis
    by (simp add: norm_v_def real_sqrt_mult)
qed

lemma normalize_unit:
  assumes "normalize a = Some u"
  shows "norm_v u = 1"
proof -
  from assms have nz: "norm_v a \<noteq> 0" and u: "u = scale a (1 / norm_v a)"
    by (auto simp add: normalize_def split: if_splits)
  from nz norm_v_nonneg [of a] have "0 < norm_v a"
    by simp
  with u show ?thesis
    by (simp add: norm_v_scale)
qed

lemma normalize_defined:
  assumes "vx a \<noteq> 0 \<or> vy a \<noteq> 0 \<or> vz a \<noteq> 0"
  shows "\<exists>u. normalize a = Some u \<and> norm_v u = 1"
proof -
  from assms have "norm_v a \<noteq> 0"
    by (auto simp add: norm_v_eq_0_iff)
  then have "normalize a = Some (scale a (1 / norm_v a))"
    by (simp add: normalize_def)
  then show ?thesis
    using normalize_unit by blast
qed

lemma unit_vz_bound:
  assumes "norm_v u = 1"
  shows "- 1 \<le> vz u"
proof -
  from assms have "dot u u = 1"
    by (simp add: norm_v_def)
  then have "vx u * vx u + vy u * vy u + vz u * vz u = 1"
    by (simp add: dot_def)
  with zero_le_square [of "vx u"] zero_le_square [of "vy u"] have "vz u * vz u \<le> 1"
    by linarith
  then have "\<bar>vz u\<bar> \<le> 1"
    by (metis abs_1 abs_le_square_iff mult_1 power2_eq_square one_power2)
  then show ?thesis
    by simp
qed

lemma light_intensity_unit:
  assumes "norm_v l = 1" and "norm_v n = 1"
  shows "0.4 \<le> light_intensity l n \<and> light_intensity l n \<le> 1"
proof -
  from dot_le_norms [of l n] assms have "dot l n \<le> 1"
    by simp
  then show ?thesis
    by (simp add: light_intensity_def)
qed

lemma maxcomp_max: "maxcomp p = max (vx p) (max (vy p) (vz p))"
  by (simp add: maxcomp_def Let_def max_def)

lemma maxcomp_nonpos_of_clamped_zero:
  assumes "norm_v (max_v q 0) = 0"
  shows "maxcomp q \<le> 0"
proof -
  from assms have "(if vx q > 0 then vx q else 0) = 0"
    and "(if vy q > 0 then vy q else 0) = 0"
    and "(if vz q > 0 then vz q else 0) = 0"
    by (simp_all add: norm_v_eq_0_iff max_v_def)
  then have "vx q \<le> 0" "vy q \<le> 0" "vz q \<le> 0"
    by (simp_all split: if_splits)
  then show ?thesis
    by (simp add: maxcomp_max)
qed

lemma box_condition_zero:
  assumes "norm_v (max_v q 0) + (if maxcomp q < 0 then 1 else 0) = 0"
  shows "maxcomp q = 0"
proof -
  have n: "0 \<le> norm_v (max_v q 0)"
    by (rule norm_v_nonneg)
  from assms n have neg: "\<not> maxcomp q < 0"
    by (auto split: if_splits)
  with assms have "norm_v (max_v q 0) = 0"
    by simp
  then have "maxcomp q \<le> 0"
    by (rule maxcomp_nonpos_of_clamped_zero)
  with neg show ?thesis
    by simp
qed

lemma box_sdf_eq: "box_signed_distance p = maxcomp (abs_v p - box_center - box_size)"
  unfolding box_signed_distance_def Let_def
  using box_condition_zero [of "abs_v p - box_center - box_size"]
  by auto

lemma box_q: "abs_v p - box_center - box_size
    = Vec3f (abs (vx p) - 0.75) (abs (vy p) - 0.75) (abs (vz p) - 0.25)"
  by (simp add: abs_v_def box_center_def box_size_def minus_Vec3f_def)

lemma box_sdf_max:
  "box_signed_distance p
     = max (abs (vx p) - 0.75) (max (abs (vy p) - 0.75) (abs (vz p) - 0.25))"
  by (simp add: box_sdf_eq box_q maxcomp_max)

lemma box_inside_negative:
  assumes "in_bounding_box p"
  shows "box_signed_distance p < 0"
proof -
  from assms have "abs (vx p - 1/2) < 1/4" and "abs (vy p - 1/2) < 1/4"
    and "abs (vz p) < 1/4"
    by (simp_all add: in_bounding_box_def box_center_def box_size_def)
  then have "abs (vx p) < 3/4" and "abs (vy p) < 3/4"
    by linarith+
  with \<open>abs (vz p) < 1/4\<close> show ?thesis
    by (simp add: box_sdf_max)
qed

section \<open>Facts about the distance functions and the tracer\<close>

lemma mod_f_exact_nonneg:
  "0 \<le> f \<Longrightarrow> nat \<lfloor>f\<rfloor> = n \<Longrightarrow> mod_f exact f 1 = Some (frac f)"
proof (induction n arbitrary: f)
  case 0
  then have "f < 1" by linarith
  with 0 show ?case by (subst mod_f.simps) (simp add: frac_eq)
next
  case (Suc n)
  then have f1: "1 \<le> f" by linarith
  then have "nat \<lfloor>f - 1\<rfloor> = n" using Suc.prems by simp
  with f1 have "mod_f exact (f - 1) 1 = Some (frac (f - 1))"
    by (intro Suc.IH) simp_all
  moreover have "frac (f - 1) = frac f"
    using frac_1_eq [of "f - 1"] by simp
  ultimately show ?case using f1 by (subst mod_f.simps) (simp add: exact_def)
qed

lemma mod_f_exact_neg:
  "f < 0 \<Longrightarrow> nat (- \<lfloor>f\<rfloor>) = n \<Longrightarrow> mod_f exact f 1 = Some (frac f)"
proof (induction n arbitrary: f)
  case 0
  then have "0 \<le> \<lfloor>f\<rfloor>" by simp
  then have "0 \<le> f" by linarith
  with 0 show ?case by simp
next
  case (Suc n)
  have step: "mod_f exact f 1 = mod_f exact (f + 1) 1"
    using Suc.prems by (subst mod_f.simps) (simp add: exact_def)
  show ?case
  proof (cases "f + 1 < 0")
    case True
    moreover from Suc.prems have "nat (- \<lfloor>f + 1\<rfloor>) = n" by simp
    ultimately have "mod_f exact (f + 1) 1 = Some (frac (f + 1))"
      by (rule Suc.IH)
    with step show ?thesis by (simp add: frac_1_eq)
  next
    case False
    then have "mod_f exact (f + 1) 1 = Some (frac (f + 1))"
      by (intro mod_f_exact_nonneg [OF _ refl]) simp
    with step show ?thesis by (simp add: frac_1_eq)
  qed
qed

lemma mod_f_exact: "mod_f exact f 1 = Some (frac f)"
  by (cases "f < 0") (simp_all add: mod_f_exact_neg mod_f_exact_nonneg)

lemma mod_v_exact: "mod_v exact p 1 = Some (Vec3f (frac (vx p)) (frac (vy p)) (frac (vz p)))"
  by (simp add: mod_v_def mod_f_exact)

lemma floor_log2_67108863: "\<lfloor>log 2 (67108863::real)\<rfloor> = 25"
  by (subst floor_log_eq_powr_iff) simp_all

lemma binary32_67108863: "binary32 67108863 = 67108864"
  by (simp add: binary32_def floor_log2_67108863 round_half_even_def Let_def)

lemma mod_f_stuck:
  assumes "mod_f rnd f v = Some y"
  shows "\<not> (rnd = binary32 \<and> f = 67108864 \<and> v = 1)"
  using assms
proof (rule mod_f.raw_induct [rotated, where P = "\<lambda>rnd f v y. \<not> (rnd = binary32 \<and> f = 67108864 \<and> v = 1)"])
  fix mod_f' :: "(real \<Rightarrow> real) \<Rightarrow> real \<Rightarrow> real \<Rightarrow> real option" and rnd f v y
  assume IH: "\<And>f v b y. mod_f' f v b = Some y \<Longrightarrow> \<not> (f = binary32 \<and> v = 67108864 \<and> b = 1)"
    and step: "(if f < 0 then mod_f' rnd (rnd (f + v)) v
        else if v \<le> f then mod_f' rnd (rnd (f - v)) v else Some f) = Some y"
  show "\<not> (rnd = binary32 \<and> f = 67108864 \<and> v = 1)"
  proof
    assume h: "rnd = binary32 \<and> f = 67108864 \<and> v = 1"
    with step have "mod_f' binary32 67108864 1 = Some y"
      by (simp add: binary32_67108863)
    with IH show False by blast
  qed
qed

lemma mod_f_binary32_stuck: "mod_f binary32 67108864 1 = None"
  using mod_f_stuck [of binary32 67108864 1] by (cases "mod_f binary32 67108864 1") auto

lemma mod_f_in_cell:
  assumes "0 \<le> f" and "f < v"
  shows "mod_f rnd f v = Some f"
  using assms by (subst mod_f.simps) simp

lemma trace_loop_total:
  "\<forall>p. sdf p \<noteq> None \<Longrightarrow>
   \<exists>hit q es. trace_loop sdf dir i pos ds = Some (hit, q, ds @ es)
     \<and> length es \<le> ray_steps - i
     \<and> (hit \<longleftrightarrow> (\<exists>d\<in>set es. d < 0))
     \<and> (\<not> hit \<longrightarrow> length es = ray_steps - i)"
proof (induction sdf dir i pos ds rule: trace_loop.induct)
  case (1 sdf dir i pos ds)
  show ?case
  proof (cases "i < ray_steps")
    case False
    then have "trace_loop sdf dir i pos ds = Some (False, pos, ds @ [])"
      by (subst trace_loop.simps) simp
    with False show ?thesis
      by (intro exI [of _ False] exI [of _ pos] exI [of _ "[]"]) simp
  next
    case True
    from "1.prems" obtain d where d: "sdf pos = Some d" by auto
    show ?thesis
    proof (cases "d < 0")
      case neg: True
      with True d have "trace_loop sdf dir i pos ds = Some (True, pos, ds @ [d])"
        by (subst trace_loop.simps) simp
      with True neg show ?thesis
        by (intro exI [of _ True] exI [of _ pos] exI [of _ "[d]"]) simp
    next
      case nonneg: False
      let ?pos' = "pos + scale dir (max (d * 0.1) 0.01)"
      from "1.IH" [OF True d nonneg "1.prems"]
      obtain hit q es where r: "trace_loop sdf dir (i + 1) ?pos' (ds @ [d]) = Some (hit, q, (ds @ [d]) @ es)"
        and len: "length es \<le> ray_steps - (i + 1)"
        and hit: "hit \<longleftrightarrow> (\<exists>d\<in>set es. d < 0)"
        and miss: "\<not> hit \<longrightarrow> length es = ray_steps - (i + 1)"
        by blast
      from True d nonneg r have "trace_loop sdf dir i pos ds = Some (hit, q, ds @ (d # es))"
        by (subst trace_loop.simps) simp
      moreover from len True have "length (d # es) \<le> ray_steps - i" by simp
      moreover from hit nonneg have "hit \<longleftrightarrow> (\<exists>d\<in>set (d # es). d < 0)" by simp
      moreover from miss True have "\<not> hit \<longrightarrow> length (d # es) = ray_steps - i" by auto
      ultimately show ?thesis
        by (intro exI [of _ hit] exI [of _ q] exI [of _ "d # es"]) simp
    qed
  qed
qed


lemma trace_budget_aux:
  assumes "\<forall>p. sdf p \<noteq> None"
  shows "\<exists>hit pos ds. trace_loop sdf dir 0 orig [] = Some (hit, pos, ds)
      \<and> length ds \<le> 128 \<and> (hit \<longleftrightarrow> (\<exists>d\<in>set ds. d < 0)) \<and> (hit \<or> length ds = 128)"
proof -
  from trace_loop_total [OF assms, of dir 0 orig "[]"]
  obtain hit q es where r: "trace_loop sdf dir 0 orig [] = Some (hit, q, [] @ es)"
    and len: "length es \<le> ray_steps - 0"
    and hit: "hit \<longleftrightarrow> (\<exists>d\<in>set es. d < 0)"
    and miss: "\<not> hit \<longrightarrow> length es = ray_steps - 0"
    by blast
  from r have "trace_loop sdf dir 0 orig [] = Some (hit, q, es)" by simp
  moreover from len have "length es \<le> 128" by (simp add: ray_steps_def)
  moreover from miss have "hit \<or> length es = 128" by (auto simp add: ray_steps_def)
  ultimately show ?thesis using hit
    by (intro exI [of _ hit] exI [of _ q] exI [of _ es]) simp
qed

section \<open>The box tracer stops at the near face\<close>

lemma ray_inv_camera: "ray_inv dir (Vec3f 0.5 0.5 3)"
  by (auto simp add: ray_inv_def)

lemma ray_inv_hit:
  assumes "ray_inv dir pos" and "box_signed_distance pos < 0"
  shows "0.24 \<le> vz pos"
proof -
  from assms(2) have "abs (vx pos) < 0.75" "abs (vy pos) < 0.75" "abs (vz pos) < 0.25"
    by (simp_all add: box_sdf_max)
  with assms show ?thesis
    by (auto simp add: ray_inv_def)
qed

lemma ray_inv_step:
  assumes inv: "ray_inv dir pos"
    and miss: "\<not> box_signed_distance pos < 0"
    and dz: "- 1 \<le> vz dir"
  shows "ray_inv dir (pos + scale dir (max (box_signed_distance pos * 0.1) 0.01))"
proof -
  define d where "d = box_signed_distance pos"
  define s where "s = max (d * 0.1) 0.01"
  define p' where "p' = pos + scale dir s"
  have s: "0 < s" "0.01 \<le> s" "d * 0.1 \<le> s"
    by (simp_all add: s_def)
  have x': "vx p' = vx pos + vx dir * s" and y': "vy p' = vy pos + vy dir * s"
    and z': "vz p' = vz pos + vz dir * s"
    by (simp_all add: p'_def plus_Vec3f_def scale_def)
  have xs: "0 \<le> vx dir \<Longrightarrow> 0 \<le> vx dir * s" "vx dir \<le> 0 \<Longrightarrow> vx dir * s \<le> 0"
    using s(1) by (simp_all add: mult_nonneg_nonneg mult_nonpos_nonneg)
  have ys: "0 \<le> vy dir \<Longrightarrow> 0 \<le> vy dir * s" "vy dir \<le> 0 \<Longrightarrow> vy dir * s \<le> 0"
    using s(1) by (simp_all add: mult_nonneg_nonneg mult_nonpos_nonneg)
  have zs: "- s \<le> vz dir * s"
    using mult_right_mono [OF dz, of s] s(1) by simp
  from inv have ix: "(0.5 \<le> vx pos \<and> 0 \<le> vx dir) \<or> (vx pos \<le> 0.5 \<and> vx dir \<le> 0)"
    and iy: "(0.5 \<le> vy pos \<and> 0 \<le> vy dir) \<or> (vy pos \<le> 0.5 \<and> vy dir \<le> 0)"
    and out: "0.25 \<le> vz pos \<or> 0.75 \<le> abs (vx pos) \<or> 0.75 \<le> abs (vy pos)"
    using miss by (auto simp add: ray_inv_def)
  from ix xs have ix': "(0.5 \<le> vx p' \<and> 0 \<le> vx dir) \<or> (vx p' \<le> 0.5 \<and> vx dir \<le> 0)"
    unfolding x' by auto
  from iy ys have iy': "(0.5 \<le> vy p' \<and> 0 \<le> vy dir) \<or> (vy p' \<le> 0.5 \<and> vy dir \<le> 0)"
    unfolding y' by auto
  have out': "0.25 \<le> vz p' \<or> 0.75 \<le> abs (vx p') \<or> 0.75 \<le> abs (vy p') \<or>
      (box_signed_distance p' < 0 \<and> 0.24 \<le> vz p')"
  proof (cases "0.75 \<le> abs (vx pos)")
    case True
    with ix xs have "0.75 \<le> abs (vx p')"
      unfolding x' by auto
    then show ?thesis by simp
  next
    case nx: False
    show ?thesis
    proof (cases "0.75 \<le> abs (vy pos)")
      case True
      with iy ys have "0.75 \<le> abs (vy p')"
        unfolding y' by auto
      then show ?thesis by simp
    next
      case ny: False
      with nx out have z: "0.25 \<le> vz pos"
        by simp
      with nx ny have "d = vz pos - 0.25"
        by (simp add: d_def box_sdf_max)
      moreover have "s = 0.01 \<or> s = d * 0.1"
        by (simp add: s_def max_def)
      ultimately have "vz pos - s \<ge> 0.24"
        using z by auto
      with zs have z24: "0.24 \<le> vz p'"
        unfolding z' by linarith
      show ?thesis
      proof (cases "0.25 \<le> vz p' \<or> 0.75 \<le> abs (vx p') \<or> 0.75 \<le> abs (vy p')")
        case True
        then show ?thesis by blast
      next
        case False
        with z24 have "box_signed_distance p' < 0"
          by (simp add: box_sdf_max)
        with z24 show ?thesis by simp
      qed
    qed
  qed
  from ix' iy' out' have "ray_inv dir p'"
    by (simp add: ray_inv_def)
  then show ?thesis
    by (simp add: p'_def s_def d_def)
qed

lemma box_trace_hit_inv:
  "ray_inv dir pos \<Longrightarrow> - 1 \<le> vz dir \<Longrightarrow>
   trace_loop (\<lambda>p. Some (box_signed_distance p)) dir i pos ds = Some (True, q, es) \<Longrightarrow>
   box_signed_distance q < 0 \<and> 0.24 \<le> vz q"
proof (induction "\<lambda>p. Some (box_signed_distance p)" dir i pos ds rule: trace_loop.induct)
  case (1 dir i pos ds)
  show ?case
  proof (cases "i < ray_steps")
    case False
    with "1.prems"(3) show ?thesis
      by (subst (asm) trace_loop.simps) simp
  next
    case True
    show ?thesis
    proof (cases "box_signed_distance pos < 0")
      case neg: True
      with True "1.prems"(3) have "q = pos"
        by (subst (asm) trace_loop.simps) simp
      with neg "1.prems"(1) ray_inv_hit [of dir pos] show ?thesis
        by simp
    next
      case nonneg: False
      let ?pos' = "pos + scale dir (max (box_signed_distance pos * 0.1) 0.01)"
      from "1.prems"(1) nonneg "1.prems"(2) have "ray_inv dir ?pos'"
        by (rule ray_inv_step)
      moreover from True nonneg "1.prems"(3)
      have "trace_loop (\<lambda>p. Some (box_signed_distance p)) dir (i + 1) ?pos'
          (ds @ [box_signed_distance pos]) = Some (True, q, es)"
        by (subst (asm) trace_loop.simps) simp
      ultimately show ?thesis
        using "1.hyps" [OF True refl nonneg] "1.prems"(2) by blast
    qed
  qed
qed

lemma shade_box_defined:
  assumes neg: "box_signed_distance q < 0" and z: "0.24 \<le> vz q"
  shows "\<exists>l n. normalize (Vec3f 10 10 10 - q) = Some l \<and> distance_field_normal_box q = Some n
      \<and> norm_v l = 1 \<and> norm_v n = 1
      \<and> shade_box q = Some (scale (Vec3f 1 1 1) (light_intensity l n))"
proof -
  from neg have in_box: "abs (vx q) < 0.75" "abs (vy q) < 0.75" "abs (vz q) < 0.25"
    by (simp_all add: box_sdf_max)
  then have "vx (Vec3f 10 10 10 - q) \<noteq> 0"
    by (simp add: minus_Vec3f_def)
  then obtain l where l: "normalize (Vec3f 10 10 10 - q) = Some l" "norm_v l = 1"
    using normalize_defined by blast
  from in_box z have "box_signed_distance (q + Vec3f 0 0 0.1) = vz q - 0.15"
    by (simp add: box_sdf_max plus_Vec3f_def)
  with neg z have "box_signed_distance (q + Vec3f 0 0 0.1) - box_signed_distance q \<noteq> 0"
    by simp
  then obtain n where n: "distance_field_normal_box q = Some n" "norm_v n = 1"
    unfolding distance_field_normal_box_def Let_def
    using normalize_defined
      [of "Vec3f (box_signed_distance (q + Vec3f 0.1 0 0) - box_signed_distance q)
                 (box_signed_distance (q + Vec3f 0 0.1 0) - box_signed_distance q)
                 (box_signed_distance (q + Vec3f 0 0 0.1) - box_signed_distance q)"]
    by auto
  from l n have "shade_box q = Some (scale (Vec3f 1 1 1) (light_intensity l n))"
    by (simp add: shade_box_def)
  with l n show ?thesis
    by blast
qed

lemma ray_dir_unit: "\<exists>dir. ray_dir i j = Some dir \<and> norm_v dir = 1"
proof -
  have "fov / 2 = pi / 6"
    by (simp add: fov_def)
  then have "tan (fov / 2) = 1 / sqrt 3"
    by (simp only: tan_30)
  then have "- real height / (2 * tan (fov / 2)) \<noteq> 0"
    by (simp add: height_def)
  then show ?thesis
    unfolding ray_dir_def Let_def
    by (intro normalize_defined) simp
qed

section \<open>Facts about the render loop\<close>

lemma pixel_defined:
  "\<exists>dir hit pos ds c. ray_dir i j = Some dir
     \<and> box_trace (Vec3f 0.5 0.5 3) dir = Some (hit, pos, ds)
     \<and> pixel v0 i j = Some c
     \<and> (if hit then shade_box pos = Some c else c = background)
     \<and> in_range c"
proof -
  obtain dir where dir: "ray_dir i j = Some dir" "norm_v dir = 1"
    using ray_dir_unit by blast
  obtain hit pos ds where tr: "box_trace (Vec3f 0.5 0.5 3) dir = Some (hit, pos, ds)"
    using trace_budget_aux [of "\<lambda>p. Some (box_signed_distance p)" dir "Vec3f 0.5 0.5 3"]
    unfolding box_trace_def by auto
  show ?thesis
  proof (cases hit)
    case False
    with dir tr have "pixel v0 i j = Some background"
      by (simp add: pixel_def calcSphere_def calcBox_def)
    moreover have "in_range background"
      by (simp add: in_range_def background_def)
    ultimately show ?thesis
      using dir tr False by auto
  next
    case True
    from dir(2) have "- 1 \<le> vz dir"
      by (rule unit_vz_bound)
    with tr True have "box_signed_distance pos < 0 \<and> 0.24 \<le> vz pos"
      unfolding box_trace_def
      using box_trace_hit_inv [OF ray_inv_camera, of dir 0 "[]" pos ds] by simp
    then obtain l n where ln: "norm_v l = 1" "norm_v n = 1"
      and sh: "shade_box pos = Some (scale (Vec3f 1 1 1) (light_intensity l n))"
      using shade_box_defined [of pos] by blast
    from ln have "0.4 \<le> light_intensity l n \<and> light_intensity l n \<le> 1"
      by (rule light_intensity_unit)
    then have "in_range (scale (Vec3f 1 1 1) (light_intensity l n))"
      by (simp add: in_range_def scale_def)
    moreover from dir tr True sh
    have "pixel v0 i j = Some (scale (Vec3f 1 1 1) (light_intensity l n))"
      by (simp add: pixel_def calcSphere_def calcBox_def)
    ultimately show ?thesis
      using dir tr True sh by auto
  qed
qed

lemma index_bound:
  assumes "i < width" and "j < height"
  shows "i + j * width < width * height"
proof -
  from assms(2) have "Suc j * width \<le> height * width"
    by (intro mult_le_mono1) simp
  with assms(1) show ?thesis
    by (simp add: mult.commute)
qed

lemma index_unique:
  assumes "i < width"
  shows "k = i + j * width \<longleftrightarrow> (k div width, k mod width) = (j, i)"
  using assms by (auto simp add: div_mult_mod_eq [symmetric] simp del: div_mult_mod_eq)

lemma store_defined:
  assumes "i < width" and "j < height" and "length fb = width * height"
  shows "store v0 i j (fb, ws)
    = Some (fb[i + j * width := the (pixel v0 i j)], ws @ [i + j * width])"
proof -
  obtain c where "pixel v0 i j = Some c"
    using pixel_defined [of i j v0] by blast
  with index_bound [OF assms(1,2)] assms(3) show ?thesis
    by (simp add: store_def Let_def)
qed

lemma run_schedule_char:
  assumes "\<forall>(j, i)\<in>set sched. i < width \<and> j < height" and "length fb = width * height"
  shows "\<exists>fb'. run_schedule v0 sched (fb, ws)
        = Some (fb', ws @ map (\<lambda>(j, i). i + j * width) sched)
      \<and> length fb' = length fb
      \<and> (\<forall>k<length fb. fb' ! k =
           (if (k div width, k mod width) \<in> set sched
            then the (pixel v0 (k mod width) (k div width)) else fb ! k))"
  using assms
proof (induction sched arbitrary: fb ws)
  case Nil
  then show ?case by simp
next
  case (Cons a sched)
  obtain j i where a: "a = (j, i)"
    by (cases a)
  with Cons.prems have i: "i < width" and j: "j < height"
    and rest: "\<forall>(j, i)\<in>set sched. i < width \<and> j < height"
    by simp_all
  let ?fb1 = "fb[i + j * width := the (pixel v0 i j)]"
  have len1: "length ?fb1 = width * height"
    using Cons.prems(2) by simp
  from Cons.IH [OF rest len1, of "ws @ [i + j * width]"]
  obtain fb' where run: "run_schedule v0 sched (?fb1, ws @ [i + j * width])
        = Some (fb', (ws @ [i + j * width]) @ map (\<lambda>(j, i). i + j * width) sched)"
    and len: "length fb' = length ?fb1"
    and val: "\<forall>k<length ?fb1. fb' ! k =
           (if (k div width, k mod width) \<in> set sched
            then the (pixel v0 (k mod width) (k div width)) else ?fb1 ! k)"
    by blast
  from run a i j Cons.prems(2)
  have "run_schedule v0 (a # sched) (fb, ws)
      = Some (fb', ws @ map (\<lambda>(j, i). i + j * width) (a # sched))"
    by (simp add: store_defined)
  moreover from len have "length fb' = length fb"
    by simp
  moreover have "fb' ! k =
      (if (k div width, k mod width) \<in> set (a # sched)
       then the (pixel v0 (k mod width) (k div width)) else fb ! k)" if k: "k < length fb" for k
  proof (cases "(k div width, k mod width) \<in> set sched")
    case True
    with val k show ?thesis by simp
  next
    case False
    show ?thesis
    proof (cases "k = i + j * width")
      case True
      with index_unique [OF i, of k j] have kk: "k div width = j" "k mod width = i"
        by simp_all
      from val k False have "fb' ! k = ?fb1 ! k"
        by simp
      with True k kk a show ?thesis
        by simp
    next
      case ne: False
      with index_unique [OF i, of k j] have "(k div width, k mod width) \<noteq> a"
        by (simp add: a)
      moreover from val k False ne have "fb' ! k = fb ! k"
        by simp
      ultimately show ?thesis
        using False by simp
    qed
  qed
  ultimately show ?case
    by blast
qed

lemma run_schedule_append:
  "run_schedule v0 (xs @ ys) st
    = (case run_schedule v0 xs st of None \<Rightarrow> None | Some st' \<Rightarrow> run_schedule v0 ys st')"
proof (induction xs arbitrary: st)
  case Nil
  show ?case by simp
next
  case (Cons a xs)
  obtain j i where "a = (j, i)"
    by (cases a)
  with Cons.IH show ?case
    by (simp split: option.split)
qed

lemma row_loop_schedule:
  "i \<le> width \<Longrightarrow> row_loop v0 j i st = run_schedule v0 (map (Pair j) [i..<width]) st"
proof (induction "width - i" arbitrary: i st)
  case 0
  then have "[i..<width] = []" and "\<not> i < width"
    by simp_all
  then show ?case
    by (subst row_loop.simps) simp
next
  case (Suc n)
  then have lt: "i < width" and n: "n = width - (i + 1)" and le: "i + 1 \<le> width"
    by simp_all
  from lt have upt: "[i..<width] = i # [i + 1..<width]"
    by (simp add: upt_conv_Cons)
  from Suc.hyps(1) [OF n le] lt show ?case
    by (subst row_loop.simps) (simp add: upt split: option.split)
qed

lemma rows_loop_schedule:
  "j \<le> height \<Longrightarrow> rows_loop v0 j st
    = run_schedule v0 (concat (map (\<lambda>j. map (Pair j) [0..<width]) [j..<height])) st"
proof (induction "height - j" arbitrary: j st)
  case 0
  then have "[j..<height] = []" and "\<not> j < height"
    by simp_all
  then show ?case
    by (subst rows_loop.simps) simp
next
  case (Suc n)
  then have lt: "j < height" and n: "n = height - (j + 1)" and le: "j + 1 \<le> height"
    by simp_all
  from lt have upt: "[j..<height] = j # [j + 1..<height]"
    by (simp add: upt_conv_Cons)
  from Suc.hyps(1) [OF n le] lt show ?case
    by (subst rows_loop.simps)
      (simp add: upt run_schedule_append row_loop_schedule split: option.split)
qed

lemma render_schedule: "render v0 = render_scheduled v0 iterations"
  by (simp add: render_def render_scheduled_def iterations_def rows_loop_schedule)

lemma iterations_set: "set iterations = {(j, i). j < height \<and> i < width}"
  by (auto simp add: iterations_def)

lemma map_add_upt': "map (\<lambda>i. i + n) [0..<m] = [n..<n + m]"
  by (induction m) simp_all

lemma indices_rows:
  "concat (map (\<lambda>j. map (\<lambda>i. i + j * width) [0..<width]) [0..<h]) = [0..<width * h]"
proof (induction h)
  case 0
  show ?case by simp
next
  case (Suc h)
  have "[0..<width * h] @ [h * width..<h * width + width] = [0..<width * h + width]"
    using upt_add_eq_append [of 0 "width * h" width] by (simp add: mult.commute)
  with Suc show ?case
    by (simp add: map_add_upt' add.commute)
qed

lemma iterations_indices: "map (\<lambda>(j, i). i + j * width) iterations = [0..<width * height]"
  by (simp add: iterations_def map_concat comp_def indices_rows)

lemma render_scheduled_char:
  assumes "set sched = set iterations"
  shows "\<exists>fb. render_scheduled v0 sched = Some (fb, map (\<lambda>(j, i). i + j * width) sched)
      \<and> length fb = width * height
      \<and> (\<forall>k<width * height. pixel v0 (k mod width) (k div width) = Some (fb ! k))"
proof -
  from assms have "\<forall>(j, i)\<in>set sched. i < width \<and> j < height"
    by (simp add: iterations_set)
  from run_schedule_char [OF this, of "replicate (width * height) v0" v0 "[]"]
  obtain fb where run: "render_scheduled v0 sched = Some (fb, map (\<lambda>(j, i). i + j * width) sched)"
    and len: "length fb = width * height"
    and val: "\<forall>k<width * height. fb ! k =
        (if (k div width, k mod width) \<in> set sched
         then the (pixel v0 (k mod width) (k div width))
         else replicate (width * height) v0 ! k)"
    unfolding render_scheduled_def by auto
  have "pixel v0 (k mod width) (k div width) = Some (fb ! k)" if k: "k < width * height" for k
  proof -
    from k have "0 < width"
      by (cases "width = 0") simp_all
    then have "k mod width < width"
      by simp
    moreover from k have "k div width < height"
      by (simp add: less_mult_imp_div_less mult.commute)
    ultimately have "(k div width, k mod width) \<in> set sched"
      by (simp add: assms iterations_set)
    with val k have "fb ! k = the (pixel v0 (k mod width) (k div width))"
      by simp
    moreover obtain c where "pixel v0 (k mod width) (k div width) = Some c"
      using pixel_defined [of "k mod width" "k div width" v0] by blast
    ultimately show ?thesis
      by simp
  qed
  with run len show ?thesis
    by blast
qed

lemma render_char:
  "\<exists>fb. render v0 = Some (fb, [0..<width * height])
      \<and> length fb = width * height
      \<and> (\<forall>k<width * height. pixel v0 (k mod width) (k div width) = Some (fb ! k))"
  using render_scheduled_char [OF refl, of v0]
  by (simp add: render_schedule iterations_indices)

section \<open>Facts about the sink\<close>

lemma clamp_truncate:
  "max 0 (min 255 (if 0 \<le> x then \<lfloor>x\<rfloor> else \<lceil>x\<rceil>)) = max (0::int) (min 255 \<lfloor>x::real\<rfloor>)"
proof (cases "0 \<le> x")
  case True
  then show ?thesis by simp
next
  case False
  then have "\<lceil>x\<rceil> \<le> 0" and "\<lfloor>x\<rfloor> \<le> 0"
    by (simp_all add: ceiling_le_iff floor_le_iff)
  with False show ?thesis
    by simp
qed

lemma those_map_Some: "those (map Some xs) = Some xs"
  by (induction xs) simp_all

lemma sink_byte_unit:
  assumes "0 \<le> c" and "c \<le> 1"
  shows "sink_byte c = Some \<lfloor>255 * c\<rfloor>"
proof -
  from assms have "0 \<le> 255 * c" and "255 * c \<le> 255"
    by simp_all
  then have "0 \<le> \<lfloor>255 * c\<rfloor>" and "\<lfloor>255 * c\<rfloor> \<le> 255"
    by (simp_all add: floor_le_iff)
  with \<open>0 \<le> 255 * c\<close> show ?thesis
    by (simp add: sink_byte_def float_to_int_def)
qed

lemma ppm_bytes_in_range:
  assumes "\<forall>v\<in>set framebuffer. in_range v"
  shows "ppm_bytes framebuffer
    = Some (concat (map (\<lambda>v. [\<lfloor>255 * vx v\<rfloor>, \<lfloor>255 * vy v\<rfloor>, \<lfloor>255 * vz v\<rfloor>]) framebuffer))"
proof -
  have upt3: "[0..<3] = [0, 1, 2]"
    by (simp add: upt_rec)
  have "map (\<lambda>j. sink_byte (comp_v v j)) [0..<3]
      = map Some [\<lfloor>255 * vx v\<rfloor>, \<lfloor>255 * vy v\<rfloor>, \<lfloor>255 * vz v\<rfloor>]"
    if "v \<in> set framebuffer" for v
  proof -
    from that assms have "in_range v"
      by blast
    then show ?thesis
      by (simp add: upt3 comp_v_def in_range_def sink_byte_unit)
  qed
  then have "concat (map (\<lambda>v. map (\<lambda>j. sink_byte (comp_v v j)) [0..<3]) framebuffer)
      = map Some (concat (map (\<lambda>v. [\<lfloor>255 * vx v\<rfloor>, \<lfloor>255 * vy v\<rfloor>, \<lfloor>255 * vz v\<rfloor>])
          framebuffer))"
    by (simp add: map_concat comp_def cong: map_cong)
  then show ?thesis
    by (simp add: ppm_bytes_def those_map_Some)
qed

section \<open>Claims about the box distance function\<close>

text \<open>
  C2: for every point \<open>p\<close>, \<open>box_signed_distance p\<close> is exactly
  \<open>maxcomp (abs p - box_center - box_size)\<close>. The condition of the return line is
  zero only when the norm is zero and \<open>maxComp\<close> is not negative, and then
  \<open>maxComp\<close> is zero itself, so the norm of the clamped vector never reaches the
  result.
\<close>

theorem box_signed_distance_is_maxcomp:
  "box_signed_distance p = maxcomp (abs_v p - box_center - box_size)"
proof (cases "norm_v (max_v (abs_v p - box_center - box_size) 0)
    + (if maxcomp (abs_v p - box_center - box_size) < 0 then 1 else 0) = 0")
  case True
  then have "maxcomp (abs_v p - box_center - box_size) = 0"
    by (rule box_condition_zero)
  with True show ?thesis
    by (simp add: box_signed_distance_def Let_def)
next
  case False
  then show ?thesis
    by (simp add: box_signed_distance_def Let_def)
qed

text \<open>
  C1, at the point where the code departs from it: the origin lies outside the bounding
  box (it is 0.5 away from \<open>box_center\<close> along x and y, and \<open>box_size\<close> is 0.25),
  and the code gives it the negative distance -0.25, the value of a point inside.
\<close>

theorem box_signed_distance_origin:
  "\<not> in_bounding_box (Vec3f 0 0 0) \<and> box_signed_distance (Vec3f 0 0 0) = - 0.25"
  by (simp add: box_sdf_max in_bounding_box_def box_center_def box_size_def)

section \<open>Claims about the repeated-sphere distance function\<close>

text \<open>
  C4, at an input where the code departs from it: at the centre \<open>(0.5, 0.5, 0)\<close> of
  a sphere the distance is -0.25, and 67108864 cells further along z the distance
  function does not return, because \<open>mod(67108864, 1)\<close> does not (see C5): the two
  calls do not give the same distance.
\<close>

theorem sphere_lattice_broken:
  "sphere_signed_distance (Vec3f 0.5 0.5 0) = Some (- 0.25)
   \<and> sphere_signed_distance (Vec3f 0.5 0.5 0 + Vec3f (of_int 0) (of_int 0) (of_int 67108864))
     = None"
proof -
  have half: "mod_f binary32 (1 / 2) 1 = Some (1 / 2)" and zero: "mod_f binary32 0 1 = Some 0"
    by (simp_all add: mod_f_in_cell)
  have "mod_v binary32 (Vec3f 0.5 0.5 0) 1 = Some (Vec3f 0.5 0.5 0)"
    by (simp add: mod_v_def half zero)
  then have a: "sphere_signed_distance (Vec3f 0.5 0.5 0) = Some (- 0.25)"
    by (simp add: sphere_signed_distance_def sphere_center_def sphere_radius_def
        minus_Vec3f_def norm_v_def dot_def)
  have "mod_v binary32 (Vec3f 0.5 0.5 67108864) 1 = None"
    by (simp add: mod_v_def half mod_f_binary32_stuck)
  then have b: "sphere_signed_distance (Vec3f 0.5 0.5 67108864) = None"
    by (simp add: sphere_signed_distance_def)
  from a b show ?thesis
    by (simp add: plus_Vec3f_def)
qed

text \<open>
  C5, at an input where the code departs from it: in single-precision arithmetic
  \<open>67108864 - 1\<close> rounds back to \<open>67108864\<close> (the neighbouring floats are 4
  apart), so \<open>mod(67108864, 1)\<close> calls itself with the argument it was given and
  never returns.
\<close>

theorem mod_binary32_never_returns: "mod_f binary32 67108864 1 = None"
  using mod_f_stuck [of binary32 67108864 1] by (cases "mod_f binary32 67108864 1") auto

section \<open>Claims about the tracer\<close>

text \<open>
  C3, at an input where the code departs from it: from the origin
  \<open>(67108864, 0.5, 0.5)\<close>, in any direction, the first evaluation of the distance
  function in \<open>sphere_trace\<close> calls \<open>mod(67108864, 1)\<close>, which never returns (see
  C5), and so neither does the tracer. The loop itself is bounded: when every evaluation
  of the distance function returns, as it does for the box, the tracer returns after at
  most 128 of them (lemma \<open>trace_loop_total\<close>).
\<close>

theorem sphere_trace_never_returns:
  "sphere_trace (Vec3f 67108864 0.5 0.5) dir = None"
proof -
  have "mod_v binary32 (Vec3f 67108864 0.5 0.5) 1 = None"
    by (simp add: mod_v_def mod_f_binary32_stuck)
  then have "sphere_signed_distance (Vec3f 67108864 0.5 0.5) = None"
    by (simp add: sphere_signed_distance_def)
  then show ?thesis
    unfolding sphere_trace_def
    by (subst trace_loop.simps) (simp add: ray_steps_def)
qed

section \<open>Claims about shading\<close>

text \<open>
  C6: when \<open>light_dir\<close> and the estimated normal are unit vectors, the intensity
  \<open>max(0.4, light_dir \<cdot> normal)\<close> of a shaded pixel lies between 0.4 and 1.
\<close>

theorem light_intensity_bounds:
  assumes "norm_v light_dir = 1" and "norm_v normal = 1"
  shows "0.4 \<le> light_intensity light_dir normal \<and> light_intensity light_dir normal \<le> 1"
proof -
  have "dot light_dir normal \<le> norm_v light_dir * norm_v normal"
    by (rule dot_le_norms)
  with assms have "dot light_dir normal \<le> 1"
    by simp
  then show ?thesis
    by (simp add: light_intensity_def)
qed

text \<open>
  Two unit vectors at an angle: the intensity is their dot product 0.8.
\<close>

theorem light_intensity_bounds_witness:
  "norm_v (Vec3f 0.6 0 0.8) = 1 \<and> norm_v (Vec3f 0 0 1) = 1
   \<and> light_intensity (Vec3f 0.6 0 0.8) (Vec3f 0 0 1) = 0.8
   \<and> 0.4 \<le> light_intensity (Vec3f 0.6 0 0.8) (Vec3f 0 0 1)
   \<and> light_intensity (Vec3f 0.6 0 0.8) (Vec3f 0 0 1) \<le> 1"
proof -
  have a: "norm_v (Vec3f 0.6 0 0.8) = 1"
    by (simp add: norm_v_def dot_def)
  have b: "norm_v (Vec3f 0 0 1) = 1"
    by (simp add: norm_v_def dot_def)
  have c: "light_intensity (Vec3f 0.6 0 0.8) (Vec3f 0 0 1) = 0.8"
    by (simp add: light_intensity_def dot_def)
  from a b c light_intensity_bounds [OF a b] show ?thesis
    by simp
qed

section \<open>Claims about the render loop\<close>

text \<open>
  C7: when the render loop has completed, every component of every colour in the
  framebuffer lies in \<open>[0, 1]\<close>, for shaded and background pixels alike. A shaded
  pixel is in range because the tracer stops within 0.01 of the near face of the box,
  where the light vector and the estimated gradient are not zero, so that both
  normalised vectors are unit vectors.
\<close>

theorem framebuffer_in_range:
  "\<exists>fb ws. render v0 = Some (fb, ws) \<and> length fb = width * height \<and> (\<forall>c\<in>set fb. in_range c)"
proof -
  obtain fb where run: "render v0 = Some (fb, [0..<width * height])"
    and len: "length fb = width * height"
    and val: "\<forall>k<width * height. pixel v0 (k mod width) (k div width) = Some (fb ! k)"
    using render_char by blast
  have "in_range c" if "c \<in> set fb" for c
  proof -
    from that len obtain k where k: "k < width * height" and c: "c = fb ! k"
      by (auto simp add: in_set_conv_nth)
    with val have "pixel v0 (k mod width) (k div width) = Some c"
      by simp
    with pixel_defined [of "k mod width" "k div width" v0] show ?thesis
      by auto
  qed
  with run len show ?thesis
    by blast
qed

text \<open>
  The first pixel of the rendered image is in range.
\<close>

theorem framebuffer_in_range_witness:
  "\<exists>fb ws. render (Vec3f 0 0 0) = Some (fb, ws) \<and> length fb = 307200 \<and> in_range (fb ! 0)"
proof -
  from framebuffer_in_range [of "Vec3f 0 0 0"]
  obtain fb ws where r: "render (Vec3f 0 0 0) = Some (fb, ws)" "length fb = width * height"
    and all: "\<forall>c\<in>set fb. in_range c"
    by blast
  from r(2) have len: "length fb = 307200"
    by (simp add: width_def height_def)
  then have "fb ! 0 \<in> set fb"
    by simp
  with all r(1) len show ?thesis
    by blast
qed

text \<open>
  C8: the render loop returns, with no error on the way, after it has written the
  elements \<open>0, 1, \<dots>, width * height - 1\<close> of the framebuffer once each; the
  element of pixel \<open>(i, j)\<close> holds the shaded colour of the hit point when the box
  tracer reports a hit, and the background colour \<open>(0.2, 0.7, 0.8)\<close> when it does not.
\<close>

theorem render_total:
  "\<exists>fb. render v0 = Some (fb, [0..<width * height])
     \<and> length fb = width * height
     \<and> (\<forall>j<height. \<forall>i<width. \<exists>dir hit pos ds.
           ray_dir i j = Some dir
         \<and> box_trace (Vec3f 0.5 0.5 3) dir = Some (hit, pos, ds)
         \<and> (if hit then shade_box pos = Some (fb ! (i + j * width))
             else fb ! (i + j * width) = background))"
proof -
  obtain fb where run: "render v0 = Some (fb, [0..<width * height])"
    and len: "length fb = width * height"
    and val: "\<forall>k<width * height. pixel v0 (k mod width) (k div width) = Some (fb ! k)"
    using render_char by blast
  have "\<exists>dir hit pos ds. ray_dir i j = Some dir
         \<and> box_trace (Vec3f 0.5 0.5 3) dir = Some (hit, pos, ds)
         \<and> (if hit then shade_box pos = Some (fb ! (i + j * width))
             else fb ! (i + j * width) = background)"
    if j: "j < height" and i: "i < width" for i j
  proof -
    from i j have "i + j * width < width * height"
      by (rule index_bound)
    with val have "pixel v0 ((i + j * width) mod width) ((i + j * width) div width)
        = Some (fb ! (i + j * width))"
      by blast
    with i have px: "pixel v0 i j = Some (fb ! (i + j * width))"
      by simp
    from pixel_defined [of i j v0] obtain dir hit pos ds c
      where d: "ray_dir i j = Some dir"
        and t: "box_trace (Vec3f 0.5 0.5 3) dir = Some (hit, pos, ds)"
        and p: "pixel v0 i j = Some c"
        and r: "if hit then shade_box pos = Some c else c = background"
      by blast
    from p px have "c = fb ! (i + j * width)"
      by simp
    with r have "if hit then shade_box pos = Some (fb ! (i + j * width))
        else fb ! (i + j * width) = background"
      by (cases hit) simp_all
    with d t show ?thesis
      by blast
  qed
  with run len show ?thesis
    by blast
qed

text \<open>
  The render of the 640 by 480 image, at its first pixel.
\<close>

theorem render_total_witness:
  "\<exists>fb dir hit pos ds. render (Vec3f 0 0 0) = Some (fb, [0..<307200])
     \<and> length fb = 307200
     \<and> ray_dir 0 0 = Some dir
     \<and> box_trace (Vec3f 0.5 0.5 3) dir = Some (hit, pos, ds)
     \<and> (if hit then shade_box pos = Some (fb ! 0) else fb ! 0 = background)"
proof -
  have "(0::nat) < height" and "(0::nat) < width" and "width * height = 307200"
    by (simp_all add: height_def width_def)
  with render_total [of "Vec3f 0 0 0"] show ?thesis
    by fastforce
qed

text \<open>
  C9: every schedule that runs the iterations of the loop once each, in any order,
  leaves the framebuffer of the sequential program, and the colour of pixel
  \<open>(i, j)\<close> is the value of the function \<open>pixel\<close> at \<open>(i, j)\<close>.
\<close>

theorem render_schedule_independent:
  assumes "mset sched = mset iterations"
  shows "\<exists>fb. map_option fst (render_scheduled v0 sched) = Some fb
      \<and> map_option fst (render v0) = Some fb
      \<and> (\<forall>j<height. \<forall>i<width. pixel v0 i j = Some (fb ! (i + j * width)))"
proof -
  from assms have "set sched = set iterations"
    by (rule mset_eq_setD)
  from render_scheduled_char [OF this, of v0]
  obtain fb where run: "render_scheduled v0 sched = Some (fb, map (\<lambda>(j, i). i + j * width) sched)"
    and len: "length fb = width * height"
    and val: "\<forall>k<width * height. pixel v0 (k mod width) (k div width) = Some (fb ! k)"
    by blast
  obtain fb' where run': "render v0 = Some (fb', [0..<width * height])"
    and len': "length fb' = width * height"
    and val': "\<forall>k<width * height. pixel v0 (k mod width) (k div width) = Some (fb' ! k)"
    using render_char by blast
  have "fb = fb'"
  proof (rule nth_equalityI)
    show "length fb = length fb'"
      by (simp add: len len')
  next
    fix k
    assume "k < length fb"
    with len val val' have "Some (fb ! k) = Some (fb' ! k)"
      by metis
    then show "fb ! k = fb' ! k"
      by simp
  qed
  have "pixel v0 i j = Some (fb ! (i + j * width))" if j: "j < height" and i: "i < width" for i j
  proof -
    from i j have "i + j * width < width * height"
      by (rule index_bound)
    with val have "pixel v0 ((i + j * width) mod width) ((i + j * width) div width)
        = Some (fb ! (i + j * width))"
      by blast
    with i show ?thesis
      by simp
  qed
  with run run' \<open>fb = fb'\<close> show ?thesis
    by simp
qed

text \<open>
  The schedule that runs the iterations in the reverse order.
\<close>

theorem render_schedule_independent_witness:
  "mset (rev iterations) = mset iterations
   \<and> (\<exists>fb. map_option fst (render_scheduled (Vec3f 0 0 0) (rev iterations)) = Some fb
      \<and> map_option fst (render (Vec3f 0 0 0)) = Some fb)"
proof -
  have m: "mset (rev iterations) = mset iterations"
    by simp
  from render_schedule_independent [OF m, of "Vec3f 0 0 0"] m show ?thesis
    by blast
qed

section \<open>Claims about the sink\<close>

text \<open>
  C10, as stated, fails: the component 0.45 gives \<open>255 \<cdot> 0.45 = 114.75\<close>, which the
  cast to \<open>int\<close> cuts to 114, while rounding to the nearest integer gives 115.
\<close>

theorem sink_byte_not_rounded:
  "sink_byte 0.45 = Some 114 \<and> spec_byte 0.45 = 115 \<and> sink_byte 0.45 \<noteq> Some (spec_byte 0.45)"
  by (simp add: sink_byte_def float_to_int_def spec_byte_def round_def)

text \<open>
  C10, amended: for every component \<open>c\<close> with \<open>255 \<cdot> c\<close> in the range of \<open>int\<close>,
  the byte written is \<open>clamp(floor(255 \<cdot> c), 0, 255)\<close>. The conversion drops the
  fraction of \<open>255 \<cdot> c\<close> (the cast rounds toward zero, and what it rounds up is negative
  and clamped to 0) instead of rounding to the nearest integer.
\<close>

theorem sink_byte_floor:
  assumes "- 2147483649 < 255 * c" and "255 * c < 2147483648"
  shows "sink_byte c = Some (max 0 (min 255 \<lfloor>255 * c\<rfloor>))"
proof -
  let ?n = "if 0 \<le> 255 * c then \<lfloor>255 * c\<rfloor> else \<lceil>255 * c\<rceil>"
  from assms have "- 2147483648 \<le> ?n" and "?n \<le> 2147483647"
    by (auto simp add: le_floor_iff floor_le_iff le_ceiling_iff ceiling_le_iff)
  then have "float_to_int (255 * c) = Some ?n"
    by (simp add: float_to_int_def Let_def)
  then show ?thesis
    using clamp_truncate [of "255 * c"] by (simp add: sink_byte_def)
qed

text \<open>
  The component 0.45 is written as the byte 114.
\<close>

theorem sink_byte_floor_witness:
  "- 2147483649 < 255 * (0.45::real) \<and> 255 * (0.45::real) < 2147483648
   \<and> sink_byte 0.45 = Some 114"
  using sink_byte_floor [of "0.45"] by simp

end
